theory Spec2Isabelle
  imports Main "HOL-Library.Word"
begin

unbundle bit_operations_syntax

section \<open>Arbitrary-width unsigned integers (\<open>llvm::APInt\<close>)\<close>

text \<open>
  The analysis computes on \<open>llvm::APInt\<close>: a bit width chosen at run time and a value
  of that many bits. The record keeps both; every operation that produces a value at
  width \<open>w\<close> reduces it modulo \<open>2 ^ w\<close>, as the fixed-width arithmetic of the library
  does. A well-formed \<open>APInt\<close> holds a value below \<open>2 ^ BitWidth\<close>.
\<close>

record APInt =
  BitWidth :: nat
  VAL :: nat

definition APInt_ok :: "APInt \<Rightarrow> bool" where
  "APInt_ok a \<longleftrightarrow> VAL a < 2 ^ BitWidth a"

text \<open>\<open>llvm::APInt{numBits, val, false}\<close>: the low \<open>numBits\<close> bits of \<open>val\<close>.\<close>

definition mkAPInt :: "nat \<Rightarrow> nat \<Rightarrow> APInt" where
  "mkAPInt numBits v = \<lparr>BitWidth = numBits, VAL = v mod 2 ^ numBits\<rparr>"

text \<open>
  \<open>APInt::zext(width)\<close>. The source calls it with a target width that is never below
  the operand's; the reduction is the identity there.
\<close>

definition zext :: "APInt \<Rightarrow> nat \<Rightarrow> APInt" where
  "zext a w = \<lparr>BitWidth = w, VAL = VAL a mod 2 ^ w\<rparr>"

text \<open>\<open>operator+\<close> and \<open>operator*\<close> on two values of one width: wrap at that width.\<close>

definition APInt_add :: "APInt \<Rightarrow> APInt \<Rightarrow> APInt" where
  "APInt_add a b = \<lparr>BitWidth = BitWidth a, VAL = (VAL a + VAL b) mod 2 ^ BitWidth a\<rparr>"

definition APInt_mul :: "APInt \<Rightarrow> APInt \<Rightarrow> APInt" where
  "APInt_mul a b = \<lparr>BitWidth = BitWidth a, VAL = (VAL a * VAL b) mod 2 ^ BitWidth a\<rparr>"

text \<open>\<open>operator<<=\<close>: bits shifted past the width are lost.\<close>

definition APInt_shl :: "APInt \<Rightarrow> nat \<Rightarrow> APInt" where
  "APInt_shl a s = \<lparr>BitWidth = BitWidth a, VAL = (VAL a * 2 ^ s) mod 2 ^ BitWidth a\<rparr>"

definition ult :: "APInt \<Rightarrow> APInt \<Rightarrow> bool" where
  "ult a b \<longleftrightarrow> VAL a < VAL b"

text \<open>\<open>APInt::getMaxValue(numBits)\<close>: all bits set.\<close>

definition getMaxValue :: "nat \<Rightarrow> APInt" where
  "getMaxValue numBits = \<lparr>BitWidth = numBits, VAL = 2 ^ numBits - 1\<rparr>"

text \<open>
  \<open>APInt::sqrt()\<close> is library code outside the repository. The model takes the root
  function on values as a parameter \<open>rt\<close>; the result keeps the operand's width.
  \<open>near_sqrt r v\<close> says that \<open>r\<close> is the real square root of \<open>v\<close> rounded down or up,
  which covers a truncating root as well as one that rounds to the nearest integer.
  \<open>floor_sqrt\<close> is an executable truncating root.
\<close>

definition APInt_sqrt :: "(nat \<Rightarrow> nat) \<Rightarrow> APInt \<Rightarrow> APInt" where
  "APInt_sqrt rt i = \<lparr>BitWidth = BitWidth i, VAL = rt (VAL i) mod 2 ^ BitWidth i\<rparr>"

definition near_sqrt :: "nat \<Rightarrow> nat \<Rightarrow> bool" where
  "near_sqrt r v \<longleftrightarrow> v < (r + 1) ^ 2 \<and> (r = 0 \<or> (r - 1) ^ 2 < v)"

fun sqrt_down :: "nat \<Rightarrow> nat \<Rightarrow> nat" where
  "sqrt_down 0 v = 0"
| "sqrt_down (Suc k) v = (if (Suc k) ^ 2 \<le> v then Suc k else sqrt_down k v)"

definition floor_sqrt :: "nat \<Rightarrow> nat" where
  "floor_sqrt v = sqrt_down v v"

section \<open>Failed assertions\<close>

text \<open>
  A failed \<open>assert\<close> ends the run (assertions are taken as compiled in). The model
  returns it as a value, with the text of the assertion (its message where it has one,
  its condition otherwise). Reading the value of an attribute that is absent is the
  other way a rule can stop.
\<close>

datatype error = AssertionFailed string | NullDereference

definition UINT_MAX :: nat where
  "UINT_MAX = 2 ^ 32 - 1"

section \<open>Width-extending arithmetic\<close>

definition APIntWidthExtendULT :: "APInt \<Rightarrow> APInt \<Rightarrow> bool" where
  "APIntWidthExtendULT lhs rhs =
     (if BitWidth lhs < BitWidth rhs then ult (zext lhs (BitWidth rhs)) rhs
      else if BitWidth lhs > BitWidth rhs then ult lhs (zext rhs (BitWidth lhs))
      else ult lhs rhs)"

definition APIntWidthExtendUAdd :: "APInt \<Rightarrow> APInt \<Rightarrow> error + APInt" where
  "APIntWidthExtendUAdd lhs rhs =
     (let maxBits = max (BitWidth lhs) (BitWidth rhs) in
      if \<not> (UINT_MAX - maxBits > 1)
      then Inl (AssertionFailed ''std::numeric_limits<unsigned>::max() - maxBits > 1'')
      else let targetWidth = maxBits + 1 in
           Inr (APInt_add (zext lhs targetWidth) (zext rhs targetWidth)))"

definition APIntWidthExtendUMul :: "APInt \<Rightarrow> APInt \<Rightarrow> error + APInt" where
  "APIntWidthExtendUMul lhs rhs =
     (if \<not> (UINT_MAX - max (BitWidth lhs) (BitWidth rhs) > min (BitWidth lhs) (BitWidth rhs))
      then Inl (AssertionFailed ''Required number of bits cannot be represented with an APInt'')
      else let targetWidth = BitWidth lhs + BitWidth rhs in
           Inr (APInt_mul (zext lhs targetWidth) (zext rhs targetWidth)))"

definition APIntWidthExtendUSq :: "APInt \<Rightarrow> error + APInt" where
  "APIntWidthExtendUSq i =
     (if \<not> (BitWidth i < UINT_MAX div 2)
      then Inl (AssertionFailed ''Required number of bits cannot be represented with an APInt'')
      else let ie = zext i (2 * BitWidth i) in Inr (APInt_mul ie ie))"

definition APIntCeilSqrt :: "(nat \<Rightarrow> nat) \<Rightarrow> APInt \<Rightarrow> error + APInt" where
  "APIntCeilSqrt rt i =
     (let res = APInt_sqrt rt i in
      case APIntWidthExtendUSq res of
        Inl e \<Rightarrow> Inl e
      | Inr resSq \<Rightarrow>
          if APIntWidthExtendULT resSq i
          then APIntWidthExtendUAdd res (mkAPInt 1 1)
          else Inr res)"

definition bindE :: "error + 'a \<Rightarrow> ('a \<Rightarrow> error + 'b) \<Rightarrow> error + 'b" where
  "bindE m f = (case m of Inl e \<Rightarrow> Inl e | Inr x \<Rightarrow> f x)"

text \<open>\<open>APIntToStringValUnsigned\<close>: the decimal digits of the value.\<close>

function toStringUnsigned :: "nat \<Rightarrow> string" where
  "toStringUnsigned n =
     (if n < 10 then [char_of (48 + n)]
      else toStringUnsigned (n div 10) @ [char_of (48 + n mod 10)])"
  by pat_completeness auto
termination
  by (relation "measure id") auto

definition APIntToStringValUnsigned :: "APInt \<Rightarrow> string" where
  "APIntToStringValUnsigned i = toStringUnsigned (VAL i)"

section \<open>Types, values and operations of the program graph\<close>

datatype SignednessSemantics = Signless | Signed | Unsigned

text \<open>
  The types the analysis looks at. A ranked tensor has a shape, one entry for each
  dimension, \<open>None\<close> for a dynamic one; an unranked tensor has only its element type.
\<close>

datatype Type =
    IntegerType nat SignednessSemantics
  | EncryptedIntegerType nat
  | RankedTensorType "nat option list" Type
  | UnrankedTensorType Type
  | OtherType

definition isSignlessInteger :: "Type \<Rightarrow> bool" where
  "isSignlessInteger t = (case t of IntegerType w Signless \<Rightarrow> True | _ \<Rightarrow> False)"

definition isa_EncryptedIntegerType :: "Type \<Rightarrow> bool" where
  "isa_EncryptedIntegerType t = (case t of EncryptedIntegerType w \<Rightarrow> True | _ \<Rightarrow> False)"

definition isa_TensorType :: "Type \<Rightarrow> bool" where
  "isa_TensorType t =
     (case t of RankedTensorType shape e \<Rightarrow> True | UnrankedTensorType e \<Rightarrow> True | _ \<Rightarrow> False)"

text \<open>\<open>dyn_cast_or_null<mlir::TensorType>\<close>: the type itself if it is a tensor type.\<close>

definition dyn_cast_TensorType :: "Type \<Rightarrow> Type option" where
  "dyn_cast_TensorType t = (if isa_TensorType t then Some t else None)"

text \<open>
  The accessors below are the ones of \<open>mlir::TensorType\<close> and \<open>mlir::Type\<close>. The source
  calls each of them only behind the test that makes it meaningful; the value given
  elsewhere is never read.
\<close>

definition getElementType :: "Type \<Rightarrow> Type" where
  "getElementType t =
     (case t of RankedTensorType shape e \<Rightarrow> e | UnrankedTensorType e \<Rightarrow> e | _ \<Rightarrow> OtherType)"

definition getIntOrFloatBitWidth :: "Type \<Rightarrow> nat" where
  "getIntOrFloatBitWidth t = (case t of IntegerType w s \<Rightarrow> w | _ \<Rightarrow> 0)"

definition getElementTypeBitWidth :: "Type \<Rightarrow> nat" where
  "getElementTypeBitWidth t = getIntOrFloatBitWidth (getElementType t)"

definition hasStaticShape :: "Type \<Rightarrow> bool" where
  "hasStaticShape t =
     (case t of RankedTensorType shape e \<Rightarrow> list_all (\<lambda>d. d \<noteq> None) shape | _ \<Rightarrow> False)"

definition getRank :: "Type \<Rightarrow> nat" where
  "getRank t = (case t of RankedTensorType shape e \<Rightarrow> length shape | _ \<Rightarrow> 0)"

definition getNumElements :: "Type \<Rightarrow> nat" where
  "getNumElements t =
     (case t of
        RankedTensorType shape e \<Rightarrow> prod_list (map (\<lambda>d. case d of Some n \<Rightarrow> n | None \<Rightarrow> 0) shape)
      | _ \<Rightarrow> 0)"

text \<open>
  Operations are told apart by their C++ class (\<open>llvm::dyn_cast\<close>, \<open>llvm::isa\<close>) and by
  their dialect. \<open>OtherOp\<close> stands for every class the analysis does not name. The
  attribute of interest is the one called \<open>value\<close>.
\<close>

datatype OpClass =
    Dot | AddEintIntOp | AddEintOp | SubIntEintOp | MulEintIntOp
  | ZeroEintOp | ApplyLookupTableEintOp | ConstantOp | OtherOp

datatype Dialect = HLFHEDialect | OtherDialect

datatype Attribute = IntegerAttr APInt | DenseIntElementsAttr "APInt list" | OtherAttr

datatype "Value" = BlockArgument Type | OpResult Operation
  and Operation =
    Operation (opClass: OpClass) (getDialect: Dialect) (getOperands: "Value list")
      (valueAttr: "Attribute option") (resultType: Type)

fun isa_BlockArgument :: "Value \<Rightarrow> bool" where
  "isa_BlockArgument (BlockArgument t) = True"
| "isa_BlockArgument (OpResult opn) = False"

fun getType :: "Value \<Rightarrow> Type" where
  "getType (BlockArgument t) = t"
| "getType (OpResult opn) = resultType opn"

fun getDefiningOp :: "Value \<Rightarrow> Operation option" where
  "getDefiningOp (BlockArgument t) = None"
| "getDefiningOp (OpResult opn) = Some opn"

text \<open>\<open>llvm::dyn_cast_or_null<mlir::ConstantOp>\<close>.\<close>

definition dyn_cast_ConstantOp :: "Operation option \<Rightarrow> Operation option" where
  "dyn_cast_ConstantOp d =
     (case d of None \<Rightarrow> None | Some opn \<Rightarrow> if opClass opn = ConstantOp then Some opn else None)"

text \<open>\<open>getAttrOfType<T>("value")\<close>: the attribute if it is there and of class \<open>T\<close>.\<close>

definition getAttrOfType_IntegerAttr :: "Operation \<Rightarrow> APInt option" where
  "getAttrOfType_IntegerAttr opn =
     (case valueAttr opn of Some (IntegerAttr k) \<Rightarrow> Some k | _ \<Rightarrow> None)"

definition getAttrOfType_DenseIntElementsAttr :: "Operation \<Rightarrow> APInt list option" where
  "getAttrOfType_DenseIntElementsAttr opn =
     (case valueAttr opn of Some (DenseIntElementsAttr vals) \<Rightarrow> Some vals | _ \<Rightarrow> None)"

text \<open>\<open>op->getOpOperand(idx).get()\<close>; the array access asserts that the index is valid.\<close>

definition getOpOperand :: "Operation \<Rightarrow> nat \<Rightarrow> error + Value" where
  "getOpOperand opn idx =
     (if idx < length (getOperands opn) then Inr (getOperands opn ! idx)
      else Inl (AssertionFailed ''Invalid index!''))"

section \<open>The lattice value\<close>

text \<open>
  \<open>MANPLatticeValue\<close> holds an optional \<open>APInt\<close>, the squared norm when it is known.
\<close>

type_synonym MANPLatticeValue = "APInt option"

definition getPessimisticValueState :: "Value \<Rightarrow> MANPLatticeValue" where
  "getPessimisticValueState v =
     (if isa_BlockArgument v \<and>
         (isa_EncryptedIntegerType (getType v) \<or>
          (isa_TensorType (getType v) \<and>
           isa_EncryptedIntegerType (getElementType (getType v))))
      then Some (mkAPInt 1 1)
      else None)"

text \<open>
  The types the specification calls encrypted, case by case: an encrypted scalar, or a
  tensor whose element type is an encrypted scalar.
\<close>

fun encryptedType :: "Type \<Rightarrow> bool" where
  "encryptedType (EncryptedIntegerType w) = True"
| "encryptedType (RankedTensorType shape (EncryptedIntegerType w)) = True"
| "encryptedType (UnrankedTensorType (EncryptedIntegerType w)) = True"
| "encryptedType t = False"

section \<open>Norms of plaintext operands\<close>

fun denseCstTensorNorm2Sq_loop :: "APInt \<Rightarrow> APInt list \<Rightarrow> error + APInt" where
  "denseCstTensorNorm2Sq_loop accu [] = Inr accu"
| "denseCstTensorNorm2Sq_loop accu (val # vals) =
     (case APIntWidthExtendUSq val of
        Inl e \<Rightarrow> Inl e
      | Inr valSq \<Rightarrow>
          (case APIntWidthExtendUAdd accu valSq of
             Inl e \<Rightarrow> Inl e
           | Inr accu' \<Rightarrow> denseCstTensorNorm2Sq_loop accu' vals))"

definition denseCstTensorNorm2Sq :: "Operation \<Rightarrow> error + APInt" where
  "denseCstTensorNorm2Sq cstOp =
     (case getAttrOfType_DenseIntElementsAttr cstOp of
        None \<Rightarrow> Inl (AssertionFailed ''Constant must be a tensor initialized with `dense`'')
      | Some denseVals \<Rightarrow>
          if \<not> isa_TensorType (resultType cstOp)
          then Inl (AssertionFailed ''Constant must be a tensor initialized with `dense`'')
          else if \<not> isSignlessInteger (getElementType (resultType cstOp))
          then Inl (AssertionFailed ''Can only handle tensors with signless integer elements'')
          else denseCstTensorNorm2Sq_loop (mkAPInt 1 0) denseVals)"

text \<open>\<open>ceilLog2<uint64_t>\<close>: the loop shifts \<open>tmp\<close> right until it is zero.\<close>

function ceilLog2_loop :: "64 word \<Rightarrow> 64 word \<Rightarrow> 64 word" where
  "ceilLog2_loop tmp log2 =
     (let tmp' = drop_bit 1 tmp in
      if tmp' \<noteq> 0 then ceilLog2_loop tmp' (log2 + 1) else log2)"
  by pat_completeness auto
termination
proof (relation "measure (\<lambda>(tmp, log2). unat tmp)")
  show "wf (measure (\<lambda>(tmp :: 64 word, log2 :: 64 word). unat tmp))"
    by simp
next
  fix tmp log2 x :: "64 word"
  assume x: "x = drop_bit 1 tmp" and nz: "x \<noteq> 0"
  have "unat x = drop_bit 1 (unat tmp)"
    unfolding x by (rule unat_drop_bit_eq)
  then have "unat x = unat tmp div 2"
    by (simp add: drop_bit_eq_div del: One_nat_def)
  moreover have "unat x \<noteq> 0"
    using nz by (simp add: unat_eq_0)
  ultimately have "unat x < unat tmp"
    by linarith
  then show "((x, log2 + 1), (tmp, log2)) \<in> measure (\<lambda>(tmp, log2). unat tmp)"
    by simp
qed

definition ceilLog2 :: "64 word \<Rightarrow> 64 word" where
  "ceilLog2 v =
     (let log2 = ceilLog2_loop v 0 in
      if v AND NOT (push_bit (unat log2) 1) \<noteq> 0 then log2 + 1 else log2)"

definition INT64_MAX :: "64 word" where
  "INT64_MAX = 2 ^ 63 - 1"

definition denseDynTensorNorm2Sq :: "Type option \<Rightarrow> error + APInt" where
  "denseDynTensorNorm2Sq tTy =
     (case tTy of
        None \<Rightarrow>
          Inl (AssertionFailed
                 ''Plaintext operand must be a statically shaped 1D tensor of integers'')
      | Some t \<Rightarrow>
          if \<not> (isSignlessInteger (getElementType t) \<and> hasStaticShape t \<and> getRank t = 1)
          then Inl (AssertionFailed
                      ''Plaintext operand must be a statically shaped 1D tensor of integers'')
          else if \<not> (UINT_MAX > 8 * 8)
          then Inl (AssertionFailed
                      ''std::numeric_limits<unsigned>::max() > 8 * sizeof(uint64_t)'')
          else
            let elWidth = getElementTypeBitWidth t;
                maxVal = getMaxValue elWidth
            in bindE (APIntWidthExtendUSq maxVal) (\<lambda>maxValSq.
                 let nElts = (word_of_nat (getNumElements t) :: 64 word) in
                 if \<not> (INT64_MAX - nElts > 1)
                 then Inl (AssertionFailed
                             ''std::numeric_limits<int64_t>::max() - nElts > 1'')
                 else
                   let nEltsBits = unat (ucast (ceilLog2 (nElts + 1)) :: 32 word);
                       nEltsAP = mkAPInt nEltsBits (unat nElts)
                   in APIntWidthExtendUMul maxValSq nEltsAP))"

definition conservativeIntNorm2Sq :: "Type \<Rightarrow> error + APInt" where
  "conservativeIntNorm2Sq t =
     (if \<not> isSignlessInteger t
      then Inl (AssertionFailed ''Type must be a signless integer type'')
      else if \<not> (UINT_MAX - getIntOrFloatBitWidth t > 1)
      then Inl (AssertionFailed
                  ''std::numeric_limits<unsigned>::max() - t.getIntOrFloatBitWidth() > 1'')
      else
        let maxVal = mkAPInt (getIntOrFloatBitWidth t + 1) 1;
            maxVal = APInt_shl maxVal (getIntOrFloatBitWidth t)
        in APIntWidthExtendUSq maxVal)"

section \<open>The rules: squared norm of each operation\<close>

text \<open>
  Each \<open>getSqMANP\<close> overload takes the operation and \<open>operandMANPs\<close>, the lattice
  values of its operands in order.
\<close>

definition getSqMANP_Dot :: "Operation \<Rightarrow> MANPLatticeValue list \<Rightarrow> error + APInt" where
  "getSqMANP_Dot opn operandMANPs =
     bindE (getOpOperand opn 0) (\<lambda>v0.
       if \<not> isa_BlockArgument v0
       then Inl (AssertionFailed
                   ''Only dot operations with tensors that are function arguments are currently supported'')
       else bindE (getOpOperand opn 1) (\<lambda>v1.
         case dyn_cast_ConstantOp (getDefiningOp v1) of
           Some cstOp \<Rightarrow> denseCstTensorNorm2Sq cstOp
         | None \<Rightarrow> denseDynTensorNorm2Sq (dyn_cast_TensorType (getType v1))))"

text \<open>
  In the three rules with a plaintext integer operand, \<open>cstOp\<close> is the constant
  operation that defines that operand, if there is one; \<open>attr.getValue()\<close> reads the
  integer attribute of the constant, which fails if the attribute is absent.
\<close>

definition getSqMANP_AddEintIntOp ::
  "Operation \<Rightarrow> MANPLatticeValue list \<Rightarrow> error + APInt" where
  "getSqMANP_AddEintIntOp opn operandMANPs =
     bindE (getOpOperand opn 1) (\<lambda>v1.
       if \<not> isSignlessInteger (getType v1)
       then Inl (AssertionFailed ''Only additions with signless integers are currently allowed'')
       else if \<not> (length operandMANPs = 2 \<and> operandMANPs ! 0 \<noteq> None)
       then Inl (AssertionFailed
                   ''Missing squared Minimal Arithmetic Noise Padding for encrypted operand'')
       else
         let cstOp = dyn_cast_ConstantOp (getDefiningOp v1);
             eNorm = the (operandMANPs ! 0)
         in bindE (case cstOp of
                     Some c \<Rightarrow>
                       (case getAttrOfType_IntegerAttr c of
                          None \<Rightarrow> Inl NullDereference
                        | Some attr \<Rightarrow> APIntWidthExtendUSq attr)
                   | None \<Rightarrow> conservativeIntNorm2Sq (getType v1))
              (\<lambda>sqNorm. APIntWidthExtendUAdd sqNorm eNorm))"

definition getSqMANP_AddEintOp ::
  "Operation \<Rightarrow> MANPLatticeValue list \<Rightarrow> error + APInt" where
  "getSqMANP_AddEintOp opn operandMANPs =
     (if \<not> (length operandMANPs = 2 \<and> operandMANPs ! 0 \<noteq> None \<and> operandMANPs ! 1 \<noteq> None)
      then Inl (AssertionFailed
                  ''Missing squared Minimal Arithmetic Noise Padding for encrypted operands'')
      else
        let a = the (operandMANPs ! 0);
            b = the (operandMANPs ! 1)
        in APIntWidthExtendUAdd a b)"

definition getSqMANP_SubIntEintOp ::
  "Operation \<Rightarrow> MANPLatticeValue list \<Rightarrow> error + APInt" where
  "getSqMANP_SubIntEintOp opn operandMANPs =
     bindE (getOpOperand opn 0) (\<lambda>v0.
       if \<not> isSignlessInteger (getType v0)
       then Inl (AssertionFailed
                   ''Only subtractions with signless integers are currently allowed'')
       else if \<not> (length operandMANPs = 2 \<and> operandMANPs ! 1 \<noteq> None)
       then Inl (AssertionFailed
                   ''Missing squared Minimal Arithmetic Noise Padding for encrypted operand'')
       else
         let cstOp = dyn_cast_ConstantOp (getDefiningOp v0);
             eNorm = the (operandMANPs ! 1)
         in bindE (case cstOp of
                     Some c \<Rightarrow>
                       (case getAttrOfType_IntegerAttr c of
                          None \<Rightarrow> Inl NullDereference
                        | Some attr \<Rightarrow> APIntWidthExtendUSq attr)
                   | None \<Rightarrow> conservativeIntNorm2Sq (getType v0))
              (\<lambda>sqNorm. APIntWidthExtendUAdd sqNorm eNorm))"

definition getSqMANP_MulEintIntOp ::
  "Operation \<Rightarrow> MANPLatticeValue list \<Rightarrow> error + APInt" where
  "getSqMANP_MulEintIntOp opn operandMANPs =
     bindE (getOpOperand opn 1) (\<lambda>v1.
       if \<not> isSignlessInteger (getType v1)
       then Inl (AssertionFailed
                   ''Only multiplications with signless integers are currently allowed'')
       else if \<not> (length operandMANPs = 2 \<and> operandMANPs ! 0 \<noteq> None)
       then Inl (AssertionFailed
                   ''Missing squared Minimal Arithmetic Noise Padding for encrypted operand'')
       else
         let cstOp = dyn_cast_ConstantOp (getDefiningOp v1);
             eNorm = the (operandMANPs ! 0)
         in bindE (case cstOp of
                     Some c \<Rightarrow>
                       (case getAttrOfType_IntegerAttr c of
                          None \<Rightarrow> Inl NullDereference
                        | Some attr \<Rightarrow> APIntWidthExtendUSq attr)
                   | None \<Rightarrow> conservativeIntNorm2Sq (getType v1))
              (\<lambda>sqNorm. APIntWidthExtendUMul sqNorm eNorm))"

section \<open>Visiting an operation\<close>

text \<open>
  \<open>op->emitError\<close> and \<open>op->emitRemark\<close> attach a diagnostic to the operation.
  \<open>visitOperation\<close> returns the diagnostics it emitted, and either the failed assertion
  that ended the run or what it wrote: the value joined into the lattice element of the
  result and the \<open>MANP\<close> attribute set on the operation (both absent for an operation
  that is not tracked).
\<close>

datatype Severity = Error | Remark

record Diagnostic =
  diagOp :: Operation
  severity :: Severity
  message :: string

record VisitResult =
  latticeRes :: MANPLatticeValue
  MANPAttr :: "APInt option"

definition visitOperation ::
  "(nat \<Rightarrow> nat) \<Rightarrow> bool \<Rightarrow> Operation \<Rightarrow> MANPLatticeValue list
     \<Rightarrow> Diagnostic list \<times> (error + VisitResult)" where
  "visitOperation rt debug opn operands =
     (let selected :: Diagnostic list \<times> (error + APInt option) =
        (if opClass opn = Dot then ([], map_sum id Some (getSqMANP_Dot opn operands))
         else if opClass opn = AddEintIntOp
         then ([], map_sum id Some (getSqMANP_AddEintIntOp opn operands))
         else if opClass opn = AddEintOp
         then ([], map_sum id Some (getSqMANP_AddEintOp opn operands))
         else if opClass opn = SubIntEintOp
         then ([], map_sum id Some (getSqMANP_SubIntEintOp opn operands))
         else if opClass opn = MulEintIntOp
         then ([], map_sum id Some (getSqMANP_MulEintIntOp opn operands))
         else if opClass opn = ZeroEintOp \<or> opClass opn = ApplyLookupTableEintOp
         then ([], Inr (Some (mkAPInt 1 1)))
         else if opClass opn = ConstantOp
         then ([], Inr None)
         else if getDialect opn = HLFHEDialect
         then ([\<lparr>diagOp = opn, severity = Error, message = ''Unsupported operation''\<rparr>],
               Inl (AssertionFailed ''Unsupported operation''))
         else ([], Inr None))
      in case selected of
           (diags, Inl e) \<Rightarrow> (diags, Inl e)
         | (diags, Inr None) \<Rightarrow> (diags, Inr \<lparr>latticeRes = None, MANPAttr = None\<rparr>)
         | (diags, Inr (Some norm2SqEquiv)) \<Rightarrow>
             (case APIntCeilSqrt rt norm2SqEquiv of
                Inl e \<Rightarrow> (diags, Inl e)
              | Inr norm2Equiv \<Rightarrow>
                  (diags @
                     (if debug
                      then [\<lparr>diagOp = opn, severity = Remark,
                             message = ''Squared Minimal Arithmetic Noise Padding: '' @
                                       APIntToStringValUnsigned norm2SqEquiv @ [CHR 0x0A]\<rparr>]
                      else []),
                   Inr \<lparr>latticeRes = Some norm2SqEquiv, MANPAttr = Some norm2Equiv\<rparr>)))"

section \<open>Properties of the arithmetic\<close>

lemma zext_VAL: "APInt_ok a \<Longrightarrow> BitWidth a \<le> w \<Longrightarrow> VAL (zext a w) = VAL a"
proof -
  assume ok: "APInt_ok a" and le: "BitWidth a \<le> w"
  have "(2::nat) ^ BitWidth a \<le> 2 ^ w"
    using le by (simp add: power_increasing)
  moreover have "VAL a < 2 ^ BitWidth a"
    using ok by (simp add: APInt_ok_def)
  ultimately have "VAL a < 2 ^ w"
    by (rule order.strict_trans2 [rotated])
  then show ?thesis
    by (simp add: zext_def)
qed

lemma sum_fits:
  fixes a b :: nat
  assumes "a < 2 ^ m" "b < 2 ^ n"
  shows "a + b < 2 ^ (max m n + 1)"
proof -
  have "(2::nat) ^ m \<le> 2 ^ max m n" "(2::nat) ^ n \<le> 2 ^ max m n"
    by (simp_all add: power_increasing)
  with assms have "a < 2 ^ max m n" "b < 2 ^ max m n"
    by linarith+
  then show ?thesis by simp
qed

lemma product_fits:
  fixes a b :: nat
  assumes "a < 2 ^ m" "b < 2 ^ n"
  shows "a * b < 2 ^ (m + n)"
proof -
  have "a * b < 2 ^ m * 2 ^ n"
    using assms by (simp add: mult_strict_mono)
  then show ?thesis by (simp add: power_add)
qed

lemma UAdd_result:
  assumes "APInt_ok a" "APInt_ok b"
    and "UINT_MAX - max (BitWidth a) (BitWidth b) > 1"
  shows "APIntWidthExtendUAdd a b =
           Inr \<lparr>BitWidth = max (BitWidth a) (BitWidth b) + 1, VAL = VAL a + VAL b\<rparr>"
proof -
  let ?w = "max (BitWidth a) (BitWidth b) + 1"
  have "VAL a + VAL b < 2 ^ ?w"
    using assms(1,2) unfolding APInt_ok_def by (rule sum_fits)
  moreover have "VAL (zext a ?w) = VAL a" "VAL (zext b ?w) = VAL b"
    using assms(1,2) by (simp_all add: zext_VAL)
  ultimately show ?thesis
    using assms(3) by (simp add: APIntWidthExtendUAdd_def APInt_add_def Let_def zext_def)
qed

lemma UMul_result:
  assumes "APInt_ok a" "APInt_ok b"
    and "UINT_MAX - max (BitWidth a) (BitWidth b) > min (BitWidth a) (BitWidth b)"
  shows "APIntWidthExtendUMul a b =
           Inr \<lparr>BitWidth = BitWidth a + BitWidth b, VAL = VAL a * VAL b\<rparr>"
proof -
  let ?w = "BitWidth a + BitWidth b"
  have "VAL a * VAL b < 2 ^ ?w"
    using assms(1,2) unfolding APInt_ok_def by (rule product_fits)
  moreover have "VAL (zext a ?w) = VAL a" "VAL (zext b ?w) = VAL b"
    using assms(1,2) by (simp_all add: zext_VAL)
  ultimately show ?thesis
    using assms(3) by (simp add: APIntWidthExtendUMul_def APInt_mul_def Let_def zext_def)
qed

lemma USq_result:
  assumes "APInt_ok a" and "BitWidth a < UINT_MAX div 2"
  shows "APIntWidthExtendUSq a = Inr \<lparr>BitWidth = 2 * BitWidth a, VAL = VAL a * VAL a\<rparr>"
proof -
  let ?w = "2 * BitWidth a"
  have "VAL a * VAL a < 2 ^ (BitWidth a + BitWidth a)"
    using assms(1) assms(1) unfolding APInt_ok_def by (rule product_fits)
  then have "VAL a * VAL a < 2 ^ ?w"
    by (simp add: mult_2)
  moreover have "VAL (zext a ?w) = VAL a"
    using assms(1) by (simp add: zext_VAL)
  ultimately show ?thesis
    using assms(2) by (simp add: APIntWidthExtendUSq_def APInt_mul_def Let_def zext_def)
qed

text \<open>
  C9. For well-formed operands, \<open>APIntWidthExtendUAdd\<close> returns the exact sum at width
  \<open>max + 1\<close> whenever its assertion on the width budget passes, and
  \<open>APIntWidthExtendUMul\<close> returns the exact product at the sum of the widths whenever
  its assertion passes; both are commutative.
\<close>

theorem C9_add_mul_exact_commutative:
  assumes "APInt_ok a" "APInt_ok b"
  shows "(UINT_MAX - max (BitWidth a) (BitWidth b) > 1 \<longrightarrow>
           APIntWidthExtendUAdd a b =
             Inr \<lparr>BitWidth = max (BitWidth a) (BitWidth b) + 1, VAL = VAL a + VAL b\<rparr>) \<and>
         APIntWidthExtendUAdd a b = APIntWidthExtendUAdd b a \<and>
         (UINT_MAX - max (BitWidth a) (BitWidth b) > min (BitWidth a) (BitWidth b) \<longrightarrow>
           APIntWidthExtendUMul a b =
             Inr \<lparr>BitWidth = BitWidth a + BitWidth b, VAL = VAL a * VAL b\<rparr>) \<and>
         APIntWidthExtendUMul a b = APIntWidthExtendUMul b a"
proof (intro conjI impI)
  assume "UINT_MAX - max (BitWidth a) (BitWidth b) > 1"
  with assms show "APIntWidthExtendUAdd a b =
           Inr \<lparr>BitWidth = max (BitWidth a) (BitWidth b) + 1, VAL = VAL a + VAL b\<rparr>"
    by (rule UAdd_result)
next
  show "APIntWidthExtendUAdd a b = APIntWidthExtendUAdd b a"
    by (simp add: APIntWidthExtendUAdd_def APInt_add_def zext_def Let_def max.commute
        add.commute)
next
  assume "UINT_MAX - max (BitWidth a) (BitWidth b) > min (BitWidth a) (BitWidth b)"
  with assms show "APIntWidthExtendUMul a b =
           Inr \<lparr>BitWidth = BitWidth a + BitWidth b, VAL = VAL a * VAL b\<rparr>"
    by (rule UMul_result)
next
  show "APIntWidthExtendUMul a b = APIntWidthExtendUMul b a"
    by (simp add: APIntWidthExtendUMul_def APInt_mul_def zext_def Let_def max.commute
        min.commute add.commute mult.commute)
qed

theorem C9_add_mul_exact_commutative_witness:
  "APInt_ok (mkAPInt 8 200) \<and> APInt_ok (mkAPInt 3 7) \<and>
   UINT_MAX - max (BitWidth (mkAPInt 8 200)) (BitWidth (mkAPInt 3 7)) > 1 \<and>
   UINT_MAX - max (BitWidth (mkAPInt 8 200)) (BitWidth (mkAPInt 3 7))
     > min (BitWidth (mkAPInt 8 200)) (BitWidth (mkAPInt 3 7)) \<and>
   APIntWidthExtendUAdd (mkAPInt 8 200) (mkAPInt 3 7) = Inr \<lparr>BitWidth = 9, VAL = 207\<rparr> \<and>
   APIntWidthExtendUAdd (mkAPInt 3 7) (mkAPInt 8 200) = Inr \<lparr>BitWidth = 9, VAL = 207\<rparr> \<and>
   APIntWidthExtendUMul (mkAPInt 8 200) (mkAPInt 3 7) = Inr \<lparr>BitWidth = 11, VAL = 1400\<rparr> \<and>
   APIntWidthExtendUMul (mkAPInt 3 7) (mkAPInt 8 200) = Inr \<lparr>BitWidth = 11, VAL = 1400\<rparr>"
proof -
  have ok: "APInt_ok (mkAPInt 8 200)" "APInt_ok (mkAPInt 3 7)"
    by (simp_all add: APInt_ok_def mkAPInt_def)
  have budget: "UINT_MAX - max (BitWidth (mkAPInt 8 200)) (BitWidth (mkAPInt 3 7)) > 1"
    "UINT_MAX - max (BitWidth (mkAPInt 8 200)) (BitWidth (mkAPInt 3 7))
       > min (BitWidth (mkAPInt 8 200)) (BitWidth (mkAPInt 3 7))"
    by (simp_all add: mkAPInt_def UINT_MAX_def)
  note C9 = C9_add_mul_exact_commutative [OF ok]
  have add: "APIntWidthExtendUAdd (mkAPInt 8 200) (mkAPInt 3 7) = Inr \<lparr>BitWidth = 9, VAL = 207\<rparr>"
    using C9 budget(1) by (simp add: mkAPInt_def)
  have mul: "APIntWidthExtendUMul (mkAPInt 8 200) (mkAPInt 3 7) = Inr \<lparr>BitWidth = 11, VAL = 1400\<rparr>"
    using C9 budget(2) by (simp add: mkAPInt_def)
  have "APIntWidthExtendUAdd (mkAPInt 3 7) (mkAPInt 8 200) = Inr \<lparr>BitWidth = 9, VAL = 207\<rparr>"
    using C9 add by metis
  moreover have "APIntWidthExtendUMul (mkAPInt 3 7) (mkAPInt 8 200) = Inr \<lparr>BitWidth = 11, VAL = 1400\<rparr>"
    using C9 mul by metis
  ultimately show ?thesis
    using ok budget add mul by blast
qed

section \<open>The ceiling square root\<close>

lemma near_sqrt_fits:
  assumes "near_sqrt r v" and "v < 2 ^ w"
  shows "r < 2 ^ w"
proof (rule ccontr)
  assume "\<not> r < 2 ^ w"
  then have big: "2 ^ w \<le> r" by simp
  have "(0::nat) < 2 ^ w" by simp
  with big have "r \<noteq> 0" by linarith
  with assms(1) have below: "(r - 1) ^ 2 < v"
    by (simp add: near_sqrt_def)
  from big assms(2) have "v \<le> r - 1" by linarith
  then have sq: "v * v \<le> (r - 1) * (r - 1)"
    by (simp add: mult_le_mono)
  have "v \<le> v * v"
    by (cases v) simp_all
  from this sq have "v \<le> (r - 1) * (r - 1)"
    by (rule le_trans)
  then have "v \<le> (r - 1) ^ 2"
    by (simp add: power2_eq_square)
  with below show False by simp
qed

lemma ULT_square:
  assumes "APInt_ok i" and "r * r < 2 ^ (2 * BitWidth i)"
  shows "APIntWidthExtendULT \<lparr>BitWidth = 2 * BitWidth i, VAL = r * r\<rparr> i \<longleftrightarrow> r * r < VAL i"
proof (cases "BitWidth i = 0")
  case True
  then show ?thesis
    by (simp add: APIntWidthExtendULT_def ult_def)
next
  case False
  moreover have "VAL (zext i (2 * BitWidth i)) = VAL i"
    using assms(1) by (simp add: zext_VAL)
  ultimately show ?thesis
    by (simp add: APIntWidthExtendULT_def ult_def)
qed

lemma CeilSqrt_result:
  assumes ok: "APInt_ok i"
    and budget: "BitWidth i < UINT_MAX div 2"
    and near: "near_sqrt (rt (VAL i)) (VAL i)"
  shows "APIntCeilSqrt rt i =
           Inr (if rt (VAL i) * rt (VAL i) < VAL i
                then \<lparr>BitWidth = max (BitWidth i) 1 + 1, VAL = rt (VAL i) + 1\<rparr>
                else \<lparr>BitWidth = BitWidth i, VAL = rt (VAL i)\<rparr>)"
proof -
  let ?r = "rt (VAL i)"
  let ?res = "\<lparr>BitWidth = BitWidth i, VAL = ?r\<rparr>"
  have fits: "?r < 2 ^ BitWidth i"
    using near ok unfolding APInt_ok_def by (rule near_sqrt_fits)
  then have res: "APInt_sqrt rt i = ?res"
    by (simp add: APInt_sqrt_def)
  have res_ok: "APInt_ok ?res"
    using fits by (simp add: APInt_ok_def)
  have sq: "APIntWidthExtendUSq ?res = Inr \<lparr>BitWidth = 2 * BitWidth i, VAL = ?r * ?r\<rparr>"
    using USq_result [OF res_ok] budget by simp
  have "?r * ?r < 2 ^ (BitWidth i + BitWidth i)"
    using fits fits by (rule product_fits)
  then have "?r * ?r < 2 ^ (2 * BitWidth i)"
    by (simp add: mult_2)
  with ok have lt: "APIntWidthExtendULT \<lparr>BitWidth = 2 * BitWidth i, VAL = ?r * ?r\<rparr> i
                      \<longleftrightarrow> ?r * ?r < VAL i"
    by (rule ULT_square)
  have one_ok: "APInt_ok (mkAPInt 1 1)"
    by (simp add: APInt_ok_def mkAPInt_def)
  have "UINT_MAX - max (BitWidth ?res) (BitWidth (mkAPInt 1 1)) > 1"
    using budget by (simp add: UINT_MAX_def mkAPInt_def)
  with res_ok one_ok
  have "APIntWidthExtendUAdd ?res (mkAPInt 1 1) =
          Inr \<lparr>BitWidth = max (BitWidth ?res) (BitWidth (mkAPInt 1 1)) + 1,
               VAL = VAL ?res + VAL (mkAPInt 1 1)\<rparr>"
    by (rule UAdd_result)
  then have add: "APIntWidthExtendUAdd ?res (mkAPInt 1 1) =
          Inr \<lparr>BitWidth = max (BitWidth i) 1 + 1, VAL = ?r + 1\<rparr>"
    by (simp add: mkAPInt_def)
  show ?thesis
    unfolding APIntCeilSqrt_def Let_def res
    by (simp add: sq lt add del: One_nat_def)
qed

lemma CeilSqrt_smallest_root:
  assumes ok: "APInt_ok i"
    and budget: "BitWidth i < UINT_MAX div 2"
    and near: "near_sqrt (rt (VAL i)) (VAL i)"
  shows "\<exists>r. APIntCeilSqrt rt i = Inr r \<and>
             VAL i \<le> VAL r ^ 2 \<and>
             (0 < VAL i \<longrightarrow> (VAL r - 1) ^ 2 < VAL i) \<and>
             (VAL i = 0 \<longrightarrow> VAL r = 0) \<and>
             (\<forall>s. VAL i \<le> s ^ 2 \<longrightarrow> VAL r \<le> s)"
proof (cases "rt (VAL i) * rt (VAL i) < VAL i")
  case True
  let ?r = "rt (VAL i)"
  have res: "APIntCeilSqrt rt i = Inr \<lparr>BitWidth = max (BitWidth i) 1 + 1, VAL = ?r + 1\<rparr>"
    using CeilSqrt_result [where i = i and rt = rt, OF ok budget near] True by simp
  have up: "VAL i \<le> (?r + 1) ^ 2"
    using near by (simp add: near_sqrt_def)
  have down: "?r ^ 2 < VAL i"
    using True by (simp add: power2_eq_square)
  have least: "?r + 1 \<le> s" if "VAL i \<le> s ^ 2" for s
  proof -
    from down that have "?r ^ 2 < s ^ 2" by simp
    then have "?r < s"
      by (rule power2_less_imp_less) simp
    then show ?thesis by simp
  qed
  have pos: "VAL i \<noteq> 0"
    using True by auto
  show ?thesis
    using res up down least pos by simp
next
  case False
  let ?r = "rt (VAL i)"
  have res: "APIntCeilSqrt rt i = Inr \<lparr>BitWidth = BitWidth i, VAL = ?r\<rparr>"
    using CeilSqrt_result [where i = i and rt = rt, OF ok budget near] False by simp
  have up: "VAL i \<le> ?r ^ 2"
    using False by (simp add: power2_eq_square)
  have zero: "?r = 0" if "VAL i = 0"
    using near that by (simp add: near_sqrt_def)
  have down: "(?r - 1) ^ 2 < VAL i" if "0 < VAL i"
  proof -
    from up that have "?r \<noteq> 0"
      by (cases "?r = 0") simp_all
    with near show ?thesis
      by (simp add: near_sqrt_def)
  qed
  have least: "?r \<le> s" if "VAL i \<le> s ^ 2" for s
  proof (cases "?r = 0")
    case True
    then show ?thesis by simp
  next
    case nz: False
    with near have "(?r - 1) ^ 2 < VAL i"
      by (simp add: near_sqrt_def)
    with that have "(?r - 1) ^ 2 < s ^ 2" by simp
    then have "?r - 1 < s"
      by (rule power2_less_imp_less) simp
    then show ?thesis by simp
  qed
  show ?thesis
    using res up zero down least by simp
qed

text \<open>
  C2. For a well-formed \<open>i\<close> within the width budget, and a library root that returns
  the real root of \<open>i\<close> rounded down or up, \<open>APIntCeilSqrt\<close> returns a value \<open>r\<close> with
  \<open>r\<^sup>2 \<ge> i\<close>, with \<open>(r - 1)\<^sup>2 < i\<close> when \<open>i > 0\<close>, with \<open>r = 0\<close> when \<open>i = 0\<close>, and
  which is the smallest integer whose square reaches \<open>i\<close>.
\<close>

theorem C2_ceilSqrt_smallest_root:
  assumes ok: "APInt_ok i"
    and budget: "BitWidth i < UINT_MAX div 2"
    and near: "near_sqrt (rt (VAL i)) (VAL i)"
  shows "\<exists>r. APIntCeilSqrt rt i = Inr r \<and>
             VAL i \<le> VAL r ^ 2 \<and>
             (0 < VAL i \<longrightarrow> (VAL r - 1) ^ 2 < VAL i) \<and>
             (VAL i = 0 \<longrightarrow> VAL r = 0) \<and>
             (\<forall>s. VAL i \<le> s ^ 2 \<longrightarrow> VAL r \<le> s)"
  using assms by (rule CeilSqrt_smallest_root)

lemma floor_sqrt_14: "floor_sqrt 14 = 3"
  by code_simp

theorem C2_ceilSqrt_smallest_root_witness:
  "APInt_ok (mkAPInt 8 14) \<and> BitWidth (mkAPInt 8 14) < UINT_MAX div 2 \<and>
   near_sqrt (floor_sqrt (VAL (mkAPInt 8 14))) (VAL (mkAPInt 8 14)) \<and>
   (\<exists>r. APIntCeilSqrt floor_sqrt (mkAPInt 8 14) = Inr r \<and>
        VAL (mkAPInt 8 14) \<le> VAL r ^ 2 \<and> (VAL r - 1) ^ 2 < VAL (mkAPInt 8 14) \<and> VAL r = 4)"
proof -
  have ok: "APInt_ok (mkAPInt 8 14)"
    by (simp add: APInt_ok_def mkAPInt_def)
  have budget: "BitWidth (mkAPInt 8 14) < UINT_MAX div 2"
    by (simp add: mkAPInt_def UINT_MAX_def)
  have near: "near_sqrt (floor_sqrt (VAL (mkAPInt 8 14))) (VAL (mkAPInt 8 14))"
    by (simp add: mkAPInt_def floor_sqrt_14 near_sqrt_def)
  from C2_ceilSqrt_smallest_root [where rt = floor_sqrt, OF ok budget near]
  obtain r where r: "APIntCeilSqrt floor_sqrt (mkAPInt 8 14) = Inr r"
    "VAL (mkAPInt 8 14) \<le> VAL r ^ 2"
    "(VAL r - 1) ^ 2 < VAL (mkAPInt 8 14)"
    "\<forall>s. VAL (mkAPInt 8 14) \<le> s ^ 2 \<longrightarrow> VAL r \<le> s"
    by (auto simp: mkAPInt_def)
  from r(4) have "VAL r \<le> 4"
    by (simp add: mkAPInt_def)
  moreover have "\<not> VAL r \<le> 3"
  proof
    assume "VAL r \<le> 3"
    then have "VAL r ^ 2 \<le> 3 ^ 2"
      by (rule power_mono) simp
    with r(2) show False
      by (simp add: mkAPInt_def)
  qed
  ultimately have "VAL r = 4" by simp
  with ok budget near r(1,2,3) show ?thesis by blast
qed

lemma CeilSqrt_one:
  assumes "near_sqrt (rt 1) 1"
  shows "APIntCeilSqrt rt \<lparr>BitWidth = 1, VAL = 1\<rparr> = Inr \<lparr>BitWidth = 1, VAL = 1\<rparr>"
proof -
  let ?one = "\<lparr>BitWidth = 1, VAL = 1\<rparr>"
  have ok: "APInt_ok ?one" by (simp add: APInt_ok_def)
  have budget: "BitWidth ?one < UINT_MAX div 2" by (simp add: UINT_MAX_def)
  have near: "near_sqrt (rt (VAL ?one)) (VAL ?one)" using assms by simp
  have "rt 1 = 1"
  proof -
    from assms have a: "1 < (rt 1 + 1) ^ 2" and b: "rt 1 = 0 \<or> (rt 1 - 1) ^ 2 < 1"
      by (simp_all add: near_sqrt_def)
    from a have "rt 1 \<noteq> 0" by (cases "rt 1 = 0") simp_all
    moreover from b this have "(rt 1 - 1) ^ 2 = 0" by simp
    ultimately show ?thesis by simp
  qed
  with CeilSqrt_result [where rt = rt, OF ok budget near] show ?thesis
    by simp
qed

section \<open>Block arguments\<close>

lemma encryptedType_iff:
  "encryptedType t \<longleftrightarrow>
     isa_EncryptedIntegerType t \<or>
     (isa_TensorType t \<and> isa_EncryptedIntegerType (getElementType t))"
  by (cases t rule: encryptedType.cases)
    (simp_all add: isa_EncryptedIntegerType_def isa_TensorType_def getElementType_def)

text \<open>
  C8. A block argument is seeded with the squared norm \<open>1\<close> exactly when its type is
  encrypted (a scalar, or a tensor of encrypted scalars), and carries no norm otherwise;
  the ceiling square root of the seed is \<open>1\<close>.
\<close>

theorem C8_block_argument_seed:
  "getPessimisticValueState (BlockArgument t) =
     (if encryptedType t then Some \<lparr>BitWidth = 1, VAL = 1\<rparr> else None) \<and>
   (near_sqrt (rt 1) 1 \<longrightarrow>
      APIntCeilSqrt rt \<lparr>BitWidth = 1, VAL = 1\<rparr> = Inr \<lparr>BitWidth = 1, VAL = 1\<rparr>)"
proof
  show "getPessimisticValueState (BlockArgument t) =
          (if encryptedType t then Some \<lparr>BitWidth = 1, VAL = 1\<rparr> else None)"
    by (simp add: getPessimisticValueState_def encryptedType_iff mkAPInt_def)
  show "near_sqrt (rt 1) 1 \<longrightarrow>
          APIntCeilSqrt rt \<lparr>BitWidth = 1, VAL = 1\<rparr> = Inr \<lparr>BitWidth = 1, VAL = 1\<rparr>"
    using CeilSqrt_one by blast
qed

theorem C8_block_argument_seed_witness:
  "near_sqrt (floor_sqrt 1) 1 \<and>
   getPessimisticValueState (BlockArgument (RankedTensorType [Some 4] (EncryptedIntegerType 7)))
     = Some \<lparr>BitWidth = 1, VAL = 1\<rparr> \<and>
   getPessimisticValueState (BlockArgument (RankedTensorType [Some 4] (IntegerType 8 Signless)))
     = None \<and>
   APIntCeilSqrt floor_sqrt \<lparr>BitWidth = 1, VAL = 1\<rparr> = Inr \<lparr>BitWidth = 1, VAL = 1\<rparr>"
proof -
  have near: "near_sqrt (floor_sqrt 1) 1"
    by (simp add: floor_sqrt_def near_sqrt_def power2_eq_square)
  have enc: "encryptedType (RankedTensorType [Some 4] (EncryptedIntegerType 7))"
    and plain: "\<not> encryptedType (RankedTensorType [Some 4] (IntegerType 8 Signless))"
    by simp_all
  note seed = C8_block_argument_seed [of "RankedTensorType [Some 4] (EncryptedIntegerType 7)"
      floor_sqrt]
  note none = C8_block_argument_seed [of "RankedTensorType [Some 4] (IntegerType 8 Signless)"
      floor_sqrt]
  have "getPessimisticValueState
          (BlockArgument (RankedTensorType [Some 4] (EncryptedIntegerType 7)))
          = Some \<lparr>BitWidth = 1, VAL = 1\<rparr>"
    using seed enc by (simp only: if_True)
  moreover have "getPessimisticValueState
          (BlockArgument (RankedTensorType [Some 4] (IntegerType 8 Signless))) = None"
    using none plain by (simp only: if_False)
  moreover have "APIntCeilSqrt floor_sqrt \<lparr>BitWidth = 1, VAL = 1\<rparr>
                   = Inr \<lparr>BitWidth = 1, VAL = 1\<rparr>"
    using seed near by blast
  ultimately show ?thesis
    using near by blast
qed

section \<open>Sums and products with one plaintext operand\<close>

text \<open>
  C5. The rule for the sum of two encrypted values with operand bounds \<open>p\<close> and
  \<open>q\<close> returns exactly \<open>p + q\<close>, at one bit more than the wider operand.
\<close>

theorem C5_add_eint_exact:
  assumes "APInt_ok p" "APInt_ok q"
    and "UINT_MAX - max (BitWidth p) (BitWidth q) > 1"
  shows "getSqMANP_AddEintOp opn [Some p, Some q] =
           Inr \<lparr>BitWidth = max (BitWidth p) (BitWidth q) + 1, VAL = VAL p + VAL q\<rparr>"
  using UAdd_result [OF assms] by (simp add: getSqMANP_AddEintOp_def)

theorem C5_add_eint_exact_witness:
  "APInt_ok (mkAPInt 5 26) \<and> APInt_ok (mkAPInt 4 14) \<and>
   UINT_MAX - max (BitWidth (mkAPInt 5 26)) (BitWidth (mkAPInt 4 14)) > 1 \<and>
   getSqMANP_AddEintOp
     (Operation AddEintOp HLFHEDialect
        [BlockArgument (EncryptedIntegerType 7), BlockArgument (EncryptedIntegerType 7)]
        None (EncryptedIntegerType 7))
     [Some (mkAPInt 5 26), Some (mkAPInt 4 14)] = Inr \<lparr>BitWidth = 6, VAL = 40\<rparr>"
proof -
  have ok: "APInt_ok (mkAPInt 5 26)" "APInt_ok (mkAPInt 4 14)"
    by (simp_all add: APInt_ok_def mkAPInt_def)
  have budget: "UINT_MAX - max (BitWidth (mkAPInt 5 26)) (BitWidth (mkAPInt 4 14)) > 1"
    by (simp add: mkAPInt_def UINT_MAX_def)
  show ?thesis
    using ok budget C5_add_eint_exact [OF ok budget]
    by (simp add: mkAPInt_def)
qed

text \<open>
  C6. The rule for the product of an encrypted value with bound \<open>p\<close> and a plaintext
  operand defined by a constant operation with integer attribute \<open>k\<close> returns exactly
  \<open>k\<^sup>2 * p\<close>, where \<open>k\<close> is the unsigned value of the attribute.
\<close>

theorem C6_mul_by_constant:
  assumes operands: "getOperands opn = [e, i]"
    and cst: "getDefiningOp i = Some cst" "opClass cst = ConstantOp"
      "valueAttr cst = Some (IntegerAttr k)"
    and ty: "isSignlessInteger (getType i)"
    and ok: "APInt_ok k" "APInt_ok p"
    and budget: "BitWidth k < UINT_MAX div 2"
      "UINT_MAX - max (2 * BitWidth k) (BitWidth p) > min (2 * BitWidth k) (BitWidth p)"
  shows "getSqMANP_MulEintIntOp opn [Some p, m] =
           Inr \<lparr>BitWidth = 2 * BitWidth k + BitWidth p, VAL = VAL k ^ 2 * VAL p\<rparr>"
proof -
  let ?sq = "\<lparr>BitWidth = 2 * BitWidth k, VAL = VAL k * VAL k\<rparr>"
  have sq: "APIntWidthExtendUSq k = Inr ?sq"
    using ok(1) budget(1) by (rule USq_result)
  have "VAL k * VAL k < 2 ^ (BitWidth k + BitWidth k)"
    using ok(1) ok(1) unfolding APInt_ok_def by (rule product_fits)
  then have sq_ok: "APInt_ok ?sq"
    by (simp add: APInt_ok_def mult_2)
  have "APIntWidthExtendUMul ?sq p =
          Inr \<lparr>BitWidth = BitWidth ?sq + BitWidth p, VAL = VAL ?sq * VAL p\<rparr>"
    using sq_ok ok(2) budget(2) by (intro UMul_result) simp_all
  then have mul: "APIntWidthExtendUMul ?sq p =
          Inr \<lparr>BitWidth = 2 * BitWidth k + BitWidth p, VAL = VAL k ^ 2 * VAL p\<rparr>"
    by (simp add: power2_eq_square)
  show ?thesis
    using operands cst ty
    by (simp add: getSqMANP_MulEintIntOp_def getOpOperand_def bindE_def dyn_cast_ConstantOp_def
        getAttrOfType_IntegerAttr_def sq mul)
qed

theorem C6_mul_by_constant_witness:
  "getSqMANP_MulEintIntOp
     (Operation MulEintIntOp HLFHEDialect
        [BlockArgument (EncryptedIntegerType 7),
         OpResult (Operation ConstantOp OtherDialect [] (Some (IntegerAttr (mkAPInt 8 5)))
                     (IntegerType 8 Signless))]
        None (EncryptedIntegerType 7))
     [Some (mkAPInt 5 26), None] = Inr \<lparr>BitWidth = 21, VAL = 650\<rparr>"
proof -
  let ?cst = "Operation ConstantOp OtherDialect [] (Some (IntegerAttr (mkAPInt 8 5)))
                (IntegerType 8 Signless)"
  let ?e = "BlockArgument (EncryptedIntegerType 7)"
  let ?opn = "Operation MulEintIntOp HLFHEDialect [?e, OpResult ?cst] None
                (EncryptedIntegerType 7)"
  have operands: "getOperands ?opn = [?e, OpResult ?cst]"
    by simp
  have cst: "getDefiningOp (OpResult ?cst) = Some ?cst" "opClass ?cst = ConstantOp"
    "valueAttr ?cst = Some (IntegerAttr (mkAPInt 8 5))"
    by simp_all
  have ty: "isSignlessInteger (getType (OpResult ?cst))"
    by (simp add: isSignlessInteger_def)
  have ok: "APInt_ok (mkAPInt 8 5)" "APInt_ok (mkAPInt 5 26)"
    by (simp_all add: APInt_ok_def mkAPInt_def)
  have budget: "BitWidth (mkAPInt 8 5) < UINT_MAX div 2"
    "UINT_MAX - max (2 * BitWidth (mkAPInt 8 5)) (BitWidth (mkAPInt 5 26))
       > min (2 * BitWidth (mkAPInt 8 5)) (BitWidth (mkAPInt 5 26))"
    by (simp_all add: mkAPInt_def UINT_MAX_def)
  show ?thesis
    using C6_mul_by_constant [OF operands cst ty ok budget, of None]
    by (simp add: mkAPInt_def)
qed

lemma conservativeIntNorm2Sq_value:
  assumes "w + 1 < UINT_MAX div 2"
  shows "conservativeIntNorm2Sq (IntegerType w Signless) =
           Inr \<lparr>BitWidth = 2 * (w + 1), VAL = (2 ^ w) ^ 2\<rparr>"
proof -
  let ?maxVal = "\<lparr>BitWidth = w + 1, VAL = 2 ^ w\<rparr>"
  have one: "mkAPInt (w + 1) 1 = \<lparr>BitWidth = w + 1, VAL = 1\<rparr>"
    by (simp add: mkAPInt_def)
  have "(2::nat) ^ w < 2 ^ (w + 1)" by simp
  then have shl: "APInt_shl \<lparr>BitWidth = w + 1, VAL = 1\<rparr> w = ?maxVal"
    by (simp add: APInt_shl_def del: power_Suc)
  have ok: "APInt_ok ?maxVal"
    by (simp add: APInt_ok_def)
  have "APIntWidthExtendUSq ?maxVal =
          Inr \<lparr>BitWidth = 2 * BitWidth ?maxVal, VAL = VAL ?maxVal * VAL ?maxVal\<rparr>"
    using ok assms by (intro USq_result) simp_all
  then have sq: "APIntWidthExtendUSq ?maxVal = Inr \<lparr>BitWidth = 2 * (w + 1), VAL = (2 ^ w) ^ 2\<rparr>"
    by (simp add: power2_eq_square)
  have "UINT_MAX - w > 1"
    using assms by (simp add: UINT_MAX_def)
  then show ?thesis
    unfolding conservativeIntNorm2Sq_def Let_def
    by (simp add: isSignlessInteger_def getIntOrFloatBitWidth_def one shl sq
        del: power_Suc One_nat_def)
qed

text \<open>
  C1. For a plaintext operand of type \<open>i8\<close> that no constant defines,
  \<open>conservativeIntNorm2Sq\<close> returns \<open>65536 = (2\<^sup>8)\<^sup>2\<close>, not the square
  \<open>65025\<close> of the largest 8-bit value \<open>255\<close>; the rules for \<open>add_eint_int\<close>,
  \<open>sub_int_eint\<close> and \<open>mul_eint_int\<close> combine that value with the encrypted
  operand's norm \<open>1\<close>.
\<close>

theorem C1_dynamic_operand_norm_is_power_of_two:
  "conservativeIntNorm2Sq (IntegerType 8 Signless) = Inr \<lparr>BitWidth = 18, VAL = 65536\<rparr> \<and>
   VAL (getMaxValue 8) ^ 2 = 65025 \<and>
   getSqMANP_AddEintIntOp
     (Operation AddEintIntOp HLFHEDialect
        [BlockArgument (EncryptedIntegerType 7), BlockArgument (IntegerType 8 Signless)]
        None (EncryptedIntegerType 7))
     [Some (mkAPInt 1 1), None] = Inr \<lparr>BitWidth = 19, VAL = 65536 + 1\<rparr> \<and>
   getSqMANP_SubIntEintOp
     (Operation SubIntEintOp HLFHEDialect
        [BlockArgument (IntegerType 8 Signless), BlockArgument (EncryptedIntegerType 7)]
        None (EncryptedIntegerType 7))
     [None, Some (mkAPInt 1 1)] = Inr \<lparr>BitWidth = 19, VAL = 65536 + 1\<rparr> \<and>
   getSqMANP_MulEintIntOp
     (Operation MulEintIntOp HLFHEDialect
        [BlockArgument (EncryptedIntegerType 7), BlockArgument (IntegerType 8 Signless)]
        None (EncryptedIntegerType 7))
     [Some (mkAPInt 1 1), None] = Inr \<lparr>BitWidth = 19, VAL = 65536 * 1\<rparr>"
proof -
  have cons: "conservativeIntNorm2Sq (IntegerType 8 Signless) = Inr \<lparr>BitWidth = 18, VAL = 65536\<rparr>"
    using conservativeIntNorm2Sq_value [of 8] by (simp add: UINT_MAX_def)
  have add: "APIntWidthExtendUAdd \<lparr>BitWidth = 18, VAL = 65536\<rparr> (mkAPInt (Suc 0) (Suc 0))
               = Inr \<lparr>BitWidth = 19, VAL = 65537\<rparr>"
    by (simp add: APIntWidthExtendUAdd_def UINT_MAX_def zext_def APInt_add_def mkAPInt_def)
  have mul: "APIntWidthExtendUMul \<lparr>BitWidth = 18, VAL = 65536\<rparr> (mkAPInt (Suc 0) (Suc 0))
               = Inr \<lparr>BitWidth = 19, VAL = 65536\<rparr>"
    by (simp add: APIntWidthExtendUMul_def UINT_MAX_def zext_def APInt_mul_def mkAPInt_def)
  show ?thesis
    by (simp add: cons add mul getMaxValue_def getSqMANP_AddEintIntOp_def
        getSqMANP_SubIntEintOp_def getSqMANP_MulEintIntOp_def getOpOperand_def bindE_def
        isSignlessInteger_def dyn_cast_ConstantOp_def)
qed

section \<open>The dot product\<close>

lemma and_not_zero_le:
  fixes v m :: "64 word"
  assumes "v AND NOT m = 0"
  shows "v \<le> m"
  by (metis and.commute assms disjunctive_diff_eq_and_not
    uint_minus_simple_alt uint_minus_simple_iff word_and_le1)

lemma unat_push_bit_one:
  assumes "j < 64"
  shows "unat (push_bit j (1 :: 64 word)) = 2 ^ j"
proof -
  have "unat (push_bit j (1 :: 64 word)) = take_bit LENGTH(64) (push_bit j (unat (1 :: 64 word)))"
    by (rule unsigned_push_bit_eq)
  also have "\<dots> = take_bit 64 ((2::nat) ^ j)"
    by (simp add: push_bit_eq_mult)
  also have "\<dots> = 2 ^ j"
    using assms by (simp add: take_bit_nat_eq_self_iff)
  finally show ?thesis .
qed

lemma unat_plus_one:
  fixes x :: "64 word"
  assumes "unat x < 2 ^ 63"
  shows "unat (x + 1) = unat x + 1"
proof -
  have "unat x + unat (1 :: 64 word) < 2 ^ LENGTH(64)"
    using assms by simp
  then have "unat (x + 1) = unat x + unat (1 :: 64 word)"
    by (simp only: unat_add_lem)
  then show ?thesis by simp
qed

lemma unat_of_nat64:
  assumes "n < 2 ^ 63"
  shows "unat (word_of_nat n :: 64 word) = n"
  using assms by (simp add: unat_of_nat)

lemma unat_ucast_small:
  fixes x :: "64 word"
  assumes "unat x \<le> 64"
  shows "unat (ucast x :: 32 word) = unat x"
proof -
  have "unat (ucast x :: 32 word) = take_bit 32 (unat x)"
    by (simp add: unsigned_ucast_eq)
  also have "\<dots> = unat x"
    using assms by (simp add: take_bit_nat_eq_self_iff)
  finally show ?thesis .
qed

lemma ceilLog2_loop_bounds:
  assumes "unat log2 < 64" and "unat tmp < 2 ^ (64 - unat log2)"
  shows "\<exists>j. unat (ceilLog2_loop tmp log2) = unat log2 + j \<and> unat log2 + j < 64 \<and>
             unat tmp < 2 ^ (j + 1) \<and> (tmp \<noteq> 0 \<longrightarrow> 2 ^ j \<le> unat tmp)"
  using assms
proof (induction tmp log2 rule: ceilLog2_loop.induct)
  case (1 tmp log2)
  let ?tmp' = "drop_bit 1 tmp"
  have "unat ?tmp' = drop_bit 1 (unat tmp)"
    by (rule unat_drop_bit_eq)
  then have half: "unat ?tmp' = unat tmp div 2"
    by (simp add: drop_bit_eq_div del: One_nat_def)
  show ?case
  proof (cases "?tmp' = 0")
    case True
    then have "unat tmp div 2 = 0"
      using half by simp
    then have small: "unat tmp < 2"
      by simp
    have nz: "1 \<le> unat tmp" if "tmp \<noteq> 0"
      using that by (simp add: Suc_le_eq unat_gt_0)
    have "ceilLog2_loop tmp log2 = log2"
      using True by (subst ceilLog2_loop.simps) (simp add: Let_def)
    with small nz "1.prems"(1) show ?thesis
      by (intro exI [of _ 0]) simp
  next
    case False
    then have pos: "0 < unat tmp div 2"
      using half by (simp add: unat_gt_0 [symmetric])
    then have big: "2 \<le> unat tmp"
      by simp
    have room: "unat log2 \<le> 62"
    proof (rule ccontr)
      assume "\<not> unat log2 \<le> 62"
      with "1.prems"(1) have "unat log2 = 63" by simp
      with "1.prems"(2) have "unat tmp < 2" by simp
      with big show False by simp
    qed
    then have suc: "unat (log2 + 1) = unat log2 + 1"
      by (intro unat_plus_one) simp
    have "unat tmp < 2 * 2 ^ (63 - unat log2)"
    proof -
      have "64 - unat log2 = Suc (63 - unat log2)"
        using room by simp
      with "1.prems"(2) show ?thesis by simp
    qed
    then have "unat tmp div 2 < 2 ^ (63 - unat log2)"
      by simp
    then have bound: "unat ?tmp' < 2 ^ (64 - unat (log2 + 1))"
      using half suc by simp
    have "unat (log2 + 1) < 64"
      using suc room by simp
    from "1.IH" [OF refl False this bound]
    obtain j where j: "unat (ceilLog2_loop ?tmp' (log2 + 1)) = unat (log2 + 1) + j"
      "unat (log2 + 1) + j < 64" "unat ?tmp' < 2 ^ (j + 1)" "2 ^ j \<le> unat ?tmp'"
      using False by blast
    have step: "ceilLog2_loop tmp log2 = ceilLog2_loop ?tmp' (log2 + 1)"
      using False by (subst ceilLog2_loop.simps) (simp add: Let_def)
    have up: "unat tmp < 2 ^ (Suc j + 1)"
      using j(3) half by simp
    have low: "2 ^ Suc j \<le> unat tmp"
      using j(4) half by simp
    show ?thesis
      using step j(1,2) suc up low by (intro exI [of _ "Suc j"]) simp
  qed
qed

lemma ceilLog2_holds:
  assumes "v \<noteq> 0"
  shows "unat v \<le> 2 ^ unat (ceilLog2 v) \<and> unat (ceilLog2 v) \<le> 64"
proof -
  have "unat (0 :: 64 word) < 64" "unat v < 2 ^ (64 - unat (0 :: 64 word))"
    using unsigned_less [of v] by simp_all
  from ceilLog2_loop_bounds [OF this] assms
  obtain j where j: "unat (ceilLog2_loop v 0) = j" "j < 64" "unat v < 2 ^ (j + 1)"
    "2 ^ j \<le> unat v"
    by auto
  let ?L = "ceilLog2_loop v 0"
  show ?thesis
  proof (cases "v AND NOT (push_bit (unat ?L) 1) \<noteq> 0")
    case True
    then have "ceilLog2 v = ?L + 1"
      by (simp add: ceilLog2_def Let_def)
    moreover have "unat (?L + 1) = unat ?L + 1"
      using j(1,2) by (intro unat_plus_one) simp
    ultimately have "unat (ceilLog2 v) = j + 1"
      using j(1) by simp
    with j(2,3) show ?thesis by simp
  next
    case False
    then have eq: "ceilLog2 v = ?L"
      by (simp add: ceilLog2_def Let_def)
    from False have "v \<le> push_bit (unat ?L) 1"
      by (intro and_not_zero_le) simp
    then have "unat v \<le> unat (push_bit j (1 :: 64 word))"
      unfolding j(1) by (simp only: word_le_nat_alt)
    then have "unat v \<le> 2 ^ j"
      using j(2) by (simp only: unat_push_bit_one)
    with eq j(1,2) show ?thesis by simp
  qed
qed

lemma nEltsAP_exact:
  assumes "n < 2 ^ 63 - 2"
  shows "\<exists>k. mkAPInt (unat (ucast (ceilLog2 (word_of_nat n + 1)) :: 32 word))
               (unat (word_of_nat n :: 64 word)) = \<lparr>BitWidth = k, VAL = n\<rparr> \<and>
             k \<le> 64 \<and> n < 2 ^ k"
proof -
  let ?nElts = "word_of_nat n :: 64 word"
  have n: "unat ?nElts = n"
    using assms by (intro unat_of_nat64) simp
  then have suc: "unat (?nElts + 1) = n + 1"
    using assms unat_plus_one [of ?nElts] by simp
  then have "?nElts + 1 \<noteq> 0"
    by (metis Suc_eq_plus1 nat.simps(3) unat_eq_0)
  then have holds: "unat (?nElts + 1) \<le> 2 ^ unat (ceilLog2 (?nElts + 1))"
    and small: "unat (ceilLog2 (?nElts + 1)) \<le> 64"
    using ceilLog2_holds by blast+
  let ?k = "unat (ceilLog2 (?nElts + 1))"
  have cast: "unat (ucast (ceilLog2 (?nElts + 1)) :: 32 word) = ?k"
    using small by (rule unat_ucast_small)
  have fits: "n < 2 ^ ?k"
    using holds suc by simp
  then have "mkAPInt ?k n = \<lparr>BitWidth = ?k, VAL = n\<rparr>"
    by (simp add: mkAPInt_def)
  with cast n small fits show ?thesis
    by simp
qed

lemma denseDynTensorNorm2Sq_result:
  assumes budget: "n < 2 ^ 63 - 2" "2 * w + 64 < UINT_MAX"
  shows "\<exists>r. denseDynTensorNorm2Sq (Some (RankedTensorType [Some n] (IntegerType w Signless)))
               = Inr r \<and> APInt_ok r \<and> BitWidth r \<le> 2 * w + 64 \<and>
             VAL r = n * (2 ^ w - 1) ^ 2"
proof -
  let ?t = "RankedTensorType [Some n] (IntegerType w Signless)"
  let ?nElts = "word_of_nat n :: 64 word"
  let ?maxValSq = "\<lparr>BitWidth = 2 * w, VAL = (2 ^ w - 1) * (2 ^ w - 1)\<rparr>"
  have checks: "isSignlessInteger (getElementType ?t)" "hasStaticShape ?t" "getRank ?t = 1"
    "getElementTypeBitWidth ?t = w" "getNumElements ?t = n"
    by (simp_all add: isSignlessInteger_def getElementType_def hasStaticShape_def getRank_def
        getElementTypeBitWidth_def getIntOrFloatBitWidth_def getNumElements_def)
  have max_ok: "APInt_ok (getMaxValue w)"
    by (simp add: APInt_ok_def getMaxValue_def)
  have "w < UINT_MAX div 2"
    using budget(2) by (simp add: UINT_MAX_def)
  then have "APIntWidthExtendUSq (getMaxValue w) =
               Inr \<lparr>BitWidth = 2 * BitWidth (getMaxValue w),
                    VAL = VAL (getMaxValue w) * VAL (getMaxValue w)\<rparr>"
    using max_ok by (intro USq_result) (simp_all add: getMaxValue_def)
  then have sq: "APIntWidthExtendUSq (getMaxValue w) = Inr ?maxValSq"
    by (simp add: getMaxValue_def)
  have "(2 ^ w - 1) * (2 ^ w - 1) < (2::nat) ^ (w + w)"
    by (intro product_fits) simp_all
  then have sq_ok: "APInt_ok ?maxValSq"
    by (simp add: APInt_ok_def mult_2)
  have n: "unat ?nElts = n"
    using budget(1) by (intro unat_of_nat64) simp
  have "?nElts \<le> INT64_MAX"
    using n budget(1) by (simp add: word_le_nat_alt INT64_MAX_def)
  then have "unat (INT64_MAX - ?nElts) = unat INT64_MAX - unat ?nElts"
    by (rule unat_sub)
  then have "unat (INT64_MAX - ?nElts) = 2 ^ 63 - 1 - n"
    using n by (simp add: INT64_MAX_def)
  then have "1 < unat (INT64_MAX - ?nElts)"
    using budget(1) by simp
  then have assertion: "INT64_MAX - ?nElts > 1"
    by (simp add: word_less_nat_alt)
  from nEltsAP_exact [OF budget(1)]
  obtain k where k: "mkAPInt (unat (ucast (ceilLog2 (?nElts + 1)) :: 32 word)) (unat ?nElts)
                       = \<lparr>BitWidth = k, VAL = n\<rparr>" "k \<le> 64" "n < 2 ^ k"
    by blast
  have n_ok: "APInt_ok \<lparr>BitWidth = k, VAL = n\<rparr>"
    using k(3) by (simp add: APInt_ok_def)
  have "UINT_MAX - max (BitWidth ?maxValSq) (BitWidth \<lparr>BitWidth = k, VAL = n\<rparr>)
          > min (BitWidth ?maxValSq) (BitWidth \<lparr>BitWidth = k, VAL = n\<rparr>)"
    using budget(2) k(2) by simp
  with sq_ok n_ok
  have mul: "APIntWidthExtendUMul ?maxValSq \<lparr>BitWidth = k, VAL = n\<rparr> =
          Inr \<lparr>BitWidth = BitWidth ?maxValSq + BitWidth \<lparr>BitWidth = k, VAL = n\<rparr>,
               VAL = VAL ?maxValSq * VAL \<lparr>BitWidth = k, VAL = n\<rparr>\<rparr>"
    by (rule UMul_result)
  have "(2 ^ w - 1) * (2 ^ w - 1) * n < (2::nat) ^ (2 * w + k)"
    using sq_ok k(3) unfolding APInt_ok_def by (intro product_fits) simp_all
  then have res_ok: "APInt_ok \<lparr>BitWidth = 2 * w + k, VAL = (2 ^ w - 1) * (2 ^ w - 1) * n\<rparr>"
    by (simp add: APInt_ok_def)
  have "denseDynTensorNorm2Sq (Some ?t) =
          Inr \<lparr>BitWidth = 2 * w + k, VAL = (2 ^ w - 1) * (2 ^ w - 1) * n\<rparr>"
    unfolding denseDynTensorNorm2Sq_def Let_def
    using assertion
    by (simp add: checks sq bindE_def k(1) mul UINT_MAX_def del: One_nat_def)
  with res_ok k(2) show ?thesis
    by (simp add: power2_eq_square)
qed

lemma denseCstTensorNorm2Sq_loop_result:
  assumes "APInt_ok accu"
    and "\<forall>k \<in> set cs. APInt_ok k \<and> BitWidth k \<le> w"
    and "w < UINT_MAX div 2"
    and "max (BitWidth accu) (2 * w) + length cs < UINT_MAX"
  shows "\<exists>r. denseCstTensorNorm2Sq_loop accu cs = Inr r \<and> APInt_ok r \<and>
             BitWidth r \<le> max (BitWidth accu) (2 * w) + length cs \<and>
             VAL r = VAL accu + (\<Sum>k\<leftarrow>cs. VAL k ^ 2)"
  using assms
proof (induction cs arbitrary: accu)
  case Nil
  then show ?case by simp
next
  case (Cons c cs)
  let ?cSq = "\<lparr>BitWidth = 2 * BitWidth c, VAL = VAL c * VAL c\<rparr>"
  let ?accu' = "\<lparr>BitWidth = max (BitWidth accu) (2 * BitWidth c) + 1,
                 VAL = VAL accu + VAL c * VAL c\<rparr>"
  from Cons.prems(2) have c: "APInt_ok c" "BitWidth c \<le> w"
    and rest: "\<forall>k \<in> set cs. APInt_ok k \<and> BitWidth k \<le> w"
    by simp_all
  have sq: "APIntWidthExtendUSq c = Inr ?cSq"
    using c Cons.prems(3) by (intro USq_result) simp_all
  have "VAL c * VAL c < 2 ^ (BitWidth c + BitWidth c)"
    using c(1) c(1) unfolding APInt_ok_def by (rule product_fits)
  then have sq_ok: "APInt_ok ?cSq"
    by (simp add: APInt_ok_def mult_2)
  have width: "max (BitWidth accu) (2 * BitWidth c) \<le> max (BitWidth accu) (2 * w)"
    using c(2) by simp
  have "UINT_MAX - max (BitWidth accu) (BitWidth ?cSq) > 1"
    using width Cons.prems(4) by simp
  with Cons.prems(1) sq_ok
  have "APIntWidthExtendUAdd accu ?cSq =
          Inr \<lparr>BitWidth = max (BitWidth accu) (BitWidth ?cSq) + 1,
               VAL = VAL accu + VAL ?cSq\<rparr>"
    by (rule UAdd_result)
  then have add: "APIntWidthExtendUAdd accu ?cSq = Inr ?accu'"
    by simp
  have "VAL accu + VAL ?cSq < 2 ^ (max (BitWidth accu) (BitWidth ?cSq) + 1)"
    using Cons.prems(1) sq_ok unfolding APInt_ok_def by (rule sum_fits)
  then have accu'_ok: "APInt_ok ?accu'"
    by (simp add: APInt_ok_def)
  have budget': "max (BitWidth ?accu') (2 * w) + length cs < UINT_MAX"
    using width Cons.prems(4) by simp
  from Cons.IH [OF accu'_ok rest Cons.prems(3) budget']
  obtain r where r: "denseCstTensorNorm2Sq_loop ?accu' cs = Inr r" "APInt_ok r"
    "BitWidth r \<le> max (BitWidth ?accu') (2 * w) + length cs"
    "VAL r = VAL ?accu' + (\<Sum>k\<leftarrow>cs. VAL k ^ 2)"
    by blast
  have "denseCstTensorNorm2Sq_loop accu (c # cs) = denseCstTensorNorm2Sq_loop ?accu' cs"
    by (simp add: sq add del: One_nat_def)
  with r(1) have "denseCstTensorNorm2Sq_loop accu (c # cs) = Inr r"
    by simp
  moreover have "BitWidth r \<le> max (BitWidth accu) (2 * w) + length (c # cs)"
    using r(3) width by simp
  moreover have "VAL r = VAL accu + (\<Sum>k\<leftarrow>c # cs. VAL k ^ 2)"
    using r(4) by (simp add: power2_eq_square)
  ultimately show ?case
    using r(2) by blast
qed

lemma denseCstTensorNorm2Sq_result:
  assumes attr: "valueAttr cstOp = Some (DenseIntElementsAttr cs)"
    and ty: "isa_TensorType (resultType cstOp)"
      "isSignlessInteger (getElementType (resultType cstOp))"
    and elems: "\<forall>k \<in> set cs. APInt_ok k \<and> BitWidth k \<le> w"
    and budget: "w < UINT_MAX div 2" "max 1 (2 * w) + length cs < UINT_MAX"
  shows "\<exists>r. denseCstTensorNorm2Sq cstOp = Inr r \<and> APInt_ok r \<and>
             BitWidth r \<le> max 1 (2 * w) + length cs \<and>
             VAL r = (\<Sum>k\<leftarrow>cs. VAL k ^ 2)"
proof -
  let ?zero = "\<lparr>BitWidth = 1, VAL = 0\<rparr>"
  have zero: "mkAPInt 1 0 = ?zero"
    by (simp add: mkAPInt_def)
  have ok: "APInt_ok ?zero"
    by (simp add: APInt_ok_def)
  have b: "max (BitWidth ?zero) (2 * w) + length cs < UINT_MAX"
    using budget(2) by simp
  from denseCstTensorNorm2Sq_loop_result [OF ok elems budget(1) b]
  obtain r where r: "denseCstTensorNorm2Sq_loop ?zero cs = Inr r" "APInt_ok r"
    "BitWidth r \<le> max (BitWidth ?zero) (2 * w) + length cs"
    "VAL r = VAL ?zero + (\<Sum>k\<leftarrow>cs. VAL k ^ 2)"
    by blast
  have "denseCstTensorNorm2Sq cstOp = Inr r"
    using attr ty r(1) unfolding denseCstTensorNorm2Sq_def zero
    by (simp add: getAttrOfType_DenseIntElementsAttr_def)
  with r(2,3,4) show ?thesis
    by simp
qed

text \<open>
  C3. For a dot operation on a block argument and a plaintext vector defined by a dense
  constant with elements \<open>cs\<close>, the rule returns exactly the sum of the squares of the
  (unsigned) elements, whatever the norms of the operands are; \<open>visitOperation\<close> then
  records that bound and its ceiling square root as the MANP. The witness is the
  constant vector \<open>[1, 2, 3]\<close>: bound \<open>14\<close>, MANP \<open>4\<close>.
\<close>

theorem C3_dot_constant_vector:
  assumes operands: "getOperands opn = [x, c]"
    and blk: "isa_BlockArgument x"
    and cst: "getDefiningOp c = Some cstOp" "opClass cstOp = ConstantOp"
      "valueAttr cstOp = Some (DenseIntElementsAttr cs)"
    and ty: "isa_TensorType (resultType cstOp)"
      "isSignlessInteger (getElementType (resultType cstOp))"
    and elems: "\<forall>k \<in> set cs. APInt_ok k \<and> BitWidth k \<le> w"
    and budget: "max 1 (2 * w) + length cs < UINT_MAX div 2"
  shows "(\<exists>r. getSqMANP_Dot opn operandMANPs = Inr r \<and> VAL r = (\<Sum>k\<leftarrow>cs. VAL k ^ 2)) \<and>
         (opClass opn = Dot \<and> near_sqrt (rt (\<Sum>k\<leftarrow>cs. VAL k ^ 2)) (\<Sum>k\<leftarrow>cs. VAL k ^ 2) \<longrightarrow>
            (\<exists>r m. snd (visitOperation rt debug opn operandMANPs) =
                     Inr \<lparr>latticeRes = Some r, MANPAttr = Some m\<rparr> \<and>
                   VAL r = (\<Sum>k\<leftarrow>cs. VAL k ^ 2) \<and>
                   (\<Sum>k\<leftarrow>cs. VAL k ^ 2) \<le> VAL m ^ 2 \<and>
                   (\<forall>s. (\<Sum>k\<leftarrow>cs. VAL k ^ 2) \<le> s ^ 2 \<longrightarrow> VAL m \<le> s)))"
proof -
  let ?sum = "\<Sum>k\<leftarrow>cs. VAL k ^ 2"
  have b1: "w < UINT_MAX div 2" and b2: "max 1 (2 * w) + length cs < UINT_MAX"
    using budget by (simp_all add: UINT_MAX_def)
  from denseCstTensorNorm2Sq_result [OF cst(3) ty elems b1 b2]
  obtain r where r: "denseCstTensorNorm2Sq cstOp = Inr r" "APInt_ok r"
    "BitWidth r \<le> max 1 (2 * w) + length cs" "VAL r = ?sum"
    by blast
  have dot: "getSqMANP_Dot opn operandMANPs = Inr r"
    using operands blk cst(1,2) r(1)
    by (simp add: getSqMANP_Dot_def getOpOperand_def bindE_def dyn_cast_ConstantOp_def)
  have visit: "\<exists>r m. snd (visitOperation rt debug opn operandMANPs) =
                     Inr \<lparr>latticeRes = Some r, MANPAttr = Some m\<rparr> \<and>
                   VAL r = ?sum \<and> ?sum \<le> VAL m ^ 2 \<and> (\<forall>s. ?sum \<le> s ^ 2 \<longrightarrow> VAL m \<le> s)"
    if cls: "opClass opn = Dot" and near: "near_sqrt (rt ?sum) ?sum"
  proof -
    have rb: "BitWidth r < UINT_MAX div 2"
      using r(3) budget by simp
    have "near_sqrt (rt (VAL r)) (VAL r)"
      using near r(4) by simp
    from CeilSqrt_smallest_root [where rt = rt, OF r(2) rb this]
    obtain m where m: "APIntCeilSqrt rt r = Inr m" "VAL r \<le> VAL m ^ 2"
      "\<forall>s. VAL r \<le> s ^ 2 \<longrightarrow> VAL m \<le> s"
      by blast
    have "snd (visitOperation rt debug opn operandMANPs) =
            Inr \<lparr>latticeRes = Some r, MANPAttr = Some m\<rparr>"
      using cls by (simp add: visitOperation_def dot m(1))
    with m(2,3) r(4) show ?thesis
      by auto
  qed
  from dot r(4) visit show ?thesis
    by blast
qed

theorem C3_dot_constant_vector_witness:
  "\<exists>r m. getSqMANP_Dot
            (Operation Dot HLFHEDialect
               [BlockArgument (RankedTensorType [Some 3] (EncryptedIntegerType 7)),
                OpResult (Operation ConstantOp OtherDialect []
                            (Some (DenseIntElementsAttr [mkAPInt 8 1, mkAPInt 8 2, mkAPInt 8 3]))
                            (RankedTensorType [Some 3] (IntegerType 8 Signless)))]
               None (EncryptedIntegerType 7))
            [Some (mkAPInt 1 1), None] = Inr r \<and>
         snd (visitOperation floor_sqrt False
            (Operation Dot HLFHEDialect
               [BlockArgument (RankedTensorType [Some 3] (EncryptedIntegerType 7)),
                OpResult (Operation ConstantOp OtherDialect []
                            (Some (DenseIntElementsAttr [mkAPInt 8 1, mkAPInt 8 2, mkAPInt 8 3]))
                            (RankedTensorType [Some 3] (IntegerType 8 Signless)))]
               None (EncryptedIntegerType 7))
            [Some (mkAPInt 1 1), None]) = Inr \<lparr>latticeRes = Some r, MANPAttr = Some m\<rparr> \<and>
         VAL r = 14 \<and> VAL m = 4"
proof -
  let ?cs = "[mkAPInt 8 1, mkAPInt 8 2, mkAPInt 8 3]"
  let ?cstOp = "Operation ConstantOp OtherDialect [] (Some (DenseIntElementsAttr ?cs))
                  (RankedTensorType [Some 3] (IntegerType 8 Signless))"
  let ?x = "BlockArgument (RankedTensorType [Some 3] (EncryptedIntegerType 7))"
  let ?opn = "Operation Dot HLFHEDialect [?x, OpResult ?cstOp] None (EncryptedIntegerType 7)"
  let ?ms = "[Some (mkAPInt 1 1), None]"
  have operands: "getOperands ?opn = [?x, OpResult ?cstOp]"
    by simp
  have blk: "isa_BlockArgument ?x"
    by simp
  have cst: "getDefiningOp (OpResult ?cstOp) = Some ?cstOp" "opClass ?cstOp = ConstantOp"
    "valueAttr ?cstOp = Some (DenseIntElementsAttr ?cs)"
    by simp_all
  have ty: "isa_TensorType (resultType ?cstOp)"
    "isSignlessInteger (getElementType (resultType ?cstOp))"
    by (simp_all add: isa_TensorType_def isSignlessInteger_def getElementType_def)
  have elems: "\<forall>k \<in> set ?cs. APInt_ok k \<and> BitWidth k \<le> 8"
    by (simp add: APInt_ok_def mkAPInt_def)
  have budget: "max 1 (2 * 8) + length ?cs < UINT_MAX div 2"
    by (simp add: UINT_MAX_def)
  have sum: "(\<Sum>k\<leftarrow>?cs. VAL k ^ 2) = 14"
    by (simp add: mkAPInt_def)
  have near: "near_sqrt (floor_sqrt (\<Sum>k\<leftarrow>?cs. VAL k ^ 2)) (\<Sum>k\<leftarrow>?cs. VAL k ^ 2)"
    unfolding sum by (simp add: floor_sqrt_14 near_sqrt_def)
  have cls: "opClass ?opn = Dot"
    by simp
  note C3 = C3_dot_constant_vector [where rt = floor_sqrt and debug = False
      and operandMANPs = ?ms, OF operands blk cst ty elems budget]
  from C3 obtain r where r: "getSqMANP_Dot ?opn ?ms = Inr r" "VAL r = 14"
    unfolding sum by blast
  from C3 cls near
  obtain r' m where m: "snd (visitOperation floor_sqrt False ?opn ?ms) =
      Inr \<lparr>latticeRes = Some r', MANPAttr = Some m\<rparr>"
    "14 \<le> VAL m ^ 2" "\<forall>s. 14 \<le> s ^ 2 \<longrightarrow> VAL m \<le> s"
    unfolding sum by blast
  have "r' = r"
    using m(1) r(1) cls
    by (simp add: visitOperation_def split: sum.splits)
  from m(3) have "VAL m \<le> 4"
    by simp
  moreover have "\<not> VAL m \<le> 3"
  proof
    assume "VAL m \<le> 3"
    then have "VAL m ^ 2 \<le> 3 ^ 2"
      by (rule power_mono) simp
    with m(2) show False by simp
  qed
  ultimately have "VAL m = 4"
    by simp
  with r m(1) \<open>r' = r\<close> show ?thesis
    by blast
qed

text \<open>
  C4. For a dot operation on a block argument and a plaintext vector that no constant
  defines, of static shape \<open>n\<close> and signless element width \<open>w\<close>, the rule returns
  exactly \<open>n\<close> times the square of the largest \<open>w\<close>-bit value. The statement is for
  \<open>n \<ge> 1\<close>: for an empty tensor the code builds an \<open>APInt\<close> of width \<open>0\<close> to
  hold the count, and what the library does with that width is not part of the model.
\<close>

theorem C4_dot_dynamic_vector:
  assumes operands: "getOperands opn = [x, v]"
    and blk: "isa_BlockArgument x"
    and dyn: "dyn_cast_ConstantOp (getDefiningOp v) = None"
    and ty: "getType v = RankedTensorType [Some n] (IntegerType w Signless)"
    and nonempty: "0 < n"
    and budget: "n < 2 ^ 63 - 2" "2 * w + 64 < UINT_MAX"
  shows "\<exists>r. getSqMANP_Dot opn operandMANPs = Inr r \<and> VAL r = n * VAL (getMaxValue w) ^ 2"
proof -
  have "getSqMANP_Dot opn operandMANPs =
          denseDynTensorNorm2Sq (Some (RankedTensorType [Some n] (IntegerType w Signless)))"
    using operands blk dyn ty
    by (simp add: getSqMANP_Dot_def getOpOperand_def bindE_def dyn_cast_TensorType_def
        isa_TensorType_def)
  with denseDynTensorNorm2Sq_result [OF budget] show ?thesis
    by (auto simp: getMaxValue_def)
qed

theorem C4_dot_dynamic_vector_witness:
  "\<exists>r. getSqMANP_Dot
          (Operation Dot HLFHEDialect
             [BlockArgument (RankedTensorType [Some 4] (EncryptedIntegerType 7)),
              BlockArgument (RankedTensorType [Some 4] (IntegerType 8 Signless))]
             None (EncryptedIntegerType 7))
          [Some (mkAPInt 1 1), None] = Inr r \<and> VAL r = 260100"
proof -
  let ?x = "BlockArgument (RankedTensorType [Some 4] (EncryptedIntegerType 7))"
  let ?v = "BlockArgument (RankedTensorType [Some 4] (IntegerType 8 Signless))"
  let ?opn = "Operation Dot HLFHEDialect [?x, ?v] None (EncryptedIntegerType 7)"
  have operands: "getOperands ?opn = [?x, ?v]"
    by simp
  have blk: "isa_BlockArgument ?x"
    by simp
  have dyn: "dyn_cast_ConstantOp (getDefiningOp ?v) = None"
    by (simp add: dyn_cast_ConstantOp_def)
  have ty: "getType ?v = RankedTensorType [Some 4] (IntegerType 8 Signless)"
    by simp
  have nonempty: "(0::nat) < 4"
    by simp
  have budget: "(4::nat) < 2 ^ 63 - 2" "2 * 8 + 64 < UINT_MAX"
    by (simp_all add: UINT_MAX_def)
  from C4_dot_dynamic_vector [OF operands blk dyn ty nonempty budget,
      of "[Some (mkAPInt 1 1), None]"]
  show ?thesis
    by (simp add: getMaxValue_def)
qed

text \<open>
  C10. A dot operation whose first operand is the result of another operation stops at
  the failed assertion of the rule; no bound is computed.
\<close>

theorem C10_dot_requires_block_argument:
  assumes "getOperands opn = OpResult producer # rest"
  shows "getSqMANP_Dot opn operandMANPs =
           Inl (AssertionFailed
                  ''Only dot operations with tensors that are function arguments are currently supported'') \<and>
         (opClass opn = Dot \<longrightarrow>
            visitOperation rt debug opn operandMANPs =
              ([], Inl (AssertionFailed
                  ''Only dot operations with tensors that are function arguments are currently supported'')))"
  using assms by (simp add: visitOperation_def getSqMANP_Dot_def getOpOperand_def bindE_def)

theorem C10_dot_requires_block_argument_witness:
  "getSqMANP_Dot
     (Operation Dot HLFHEDialect
        [OpResult (Operation ZeroEintOp HLFHEDialect [] None
                     (RankedTensorType [Some 4] (EncryptedIntegerType 7))),
         BlockArgument (RankedTensorType [Some 4] (IntegerType 8 Signless))]
        None (EncryptedIntegerType 7))
     [Some (mkAPInt 1 1), None] =
   Inl (AssertionFailed
          ''Only dot operations with tensors that are function arguments are currently supported'') \<and>
   visitOperation floor_sqrt False
     (Operation Dot HLFHEDialect
        [OpResult (Operation ZeroEintOp HLFHEDialect [] None
                     (RankedTensorType [Some 4] (EncryptedIntegerType 7))),
         BlockArgument (RankedTensorType [Some 4] (IntegerType 8 Signless))]
        None (EncryptedIntegerType 7))
     [Some (mkAPInt 1 1), None] =
   ([], Inl (AssertionFailed
          ''Only dot operations with tensors that are function arguments are currently supported''))"
proof -
  let ?producer = "Operation ZeroEintOp HLFHEDialect [] None
                     (RankedTensorType [Some 4] (EncryptedIntegerType 7))"
  let ?plain = "BlockArgument (RankedTensorType [Some 4] (IntegerType 8 Signless))"
  let ?opn = "Operation Dot HLFHEDialect [OpResult ?producer, ?plain] None
                (EncryptedIntegerType 7)"
  have operands: "getOperands ?opn = OpResult ?producer # [?plain]"
    by simp
  have cls: "opClass ?opn = Dot"
    by simp
  show ?thesis
    using C10_dot_requires_block_argument [OF operands, of "[Some (mkAPInt 1 1), None]"
        floor_sqrt False] cls
    by blast
qed

section \<open>Operations without a rule\<close>

text \<open>
  C7. An operation of the HLFHE dialect whose class has no rule makes
  \<open>visitOperation\<close> emit an error diagnostic attached to that operation and stop at
  the failed assertion; nothing is written for the operation.
\<close>

theorem C7_unsupported_operation_aborts:
  assumes "opClass opn = OtherOp" and "getDialect opn = HLFHEDialect"
  shows "visitOperation rt debug opn operands =
           ([\<lparr>diagOp = opn, severity = Error, message = ''Unsupported operation''\<rparr>],
            Inl (AssertionFailed ''Unsupported operation''))"
  using assms by (simp add: visitOperation_def)

theorem C7_unsupported_operation_aborts_witness:
  "visitOperation floor_sqrt False
     (Operation OtherOp HLFHEDialect [BlockArgument (EncryptedIntegerType 7)] None
        (EncryptedIntegerType 7))
     [Some (mkAPInt 1 1)] =
   ([\<lparr>diagOp = Operation OtherOp HLFHEDialect [BlockArgument (EncryptedIntegerType 7)] None
                 (EncryptedIntegerType 7),
      severity = Error, message = ''Unsupported operation''\<rparr>],
    Inl (AssertionFailed ''Unsupported operation''))"
proof -
  let ?opn = "Operation OtherOp HLFHEDialect [BlockArgument (EncryptedIntegerType 7)] None
                (EncryptedIntegerType 7)"
  have "opClass ?opn = OtherOp" and "getDialect ?opn = HLFHEDialect"
    by simp_all
  then show ?thesis
    by (rule C7_unsupported_operation_aborts)
qed

end
